theory Spec2Isabelle
  imports Complex_Main "HOL-Library.Word" "HOL-Library.Log_Nat"
begin

section \<open>The audio visualizer (audio_visualizer.py)\<close>

text \<open>
  The script decodes an audio file, downmixes it to mono, converts it to 16-bit samples
  for playback, builds 64 bars in a scene and, once per frame, sets every bar's height
  from the sample window that starts at the elapsed playback time.

  Numbers. A finite Python \<open>float\<close> (binary64) is the real number it denotes, and every
  arithmetic operation on floats is the exact operation followed by rounding to the
  nearest binary64 value, ties to even (\<open>b64\<close> below). Infinities and NaN are not
  values of the model. Python's \<open>int\<close> is \<^typ>\<open>int\<close>, a numpy \<open>int16\<close> is a
  \<^typ>\<open>16 word\<close> read with \<^const>\<open>sint\<close>.
\<close>

subsection \<open>Binary floating point\<close>

text \<open>Rounding a real to the nearest integer, a tie to the even one.\<close>

definition rhe :: "real \<Rightarrow> int" where
  "rhe y =
     (let f = \<lfloor>y\<rfloor>
      in if y - of_int f < 1 / 2 then f
         else if 1 / 2 < y - of_int f then f + 1
         else if even f then f else f + 1)"

text \<open>The binary exponent of a positive real: \<open>2 powi expo x \<le> x < 2 powi (expo x + 1)\<close>.\<close>

definition expo :: "real \<Rightarrow> int" where
  "expo x =
     (if 1 \<le> x then bitlen \<lfloor>x\<rfloor> - 1 else - bitlen (\<lceil>1 / x\<rceil> - 1))"

text \<open>Rounding to a format with \<open>p\<close> significant bits and least exponent \<open>emin\<close> (below
  it the spacing stays that of the least exponent: the subnormal numbers).\<close>

definition round_to :: "nat \<Rightarrow> int \<Rightarrow> real \<Rightarrow> real" where
  "round_to p emin x =
     (if x = 0 then 0
      else (let e = max emin (expo \<bar>x\<bar>); u = 2 powi (e - int p + 1)
            in sgn x * (of_int (rhe (\<bar>x\<bar> / u)) * u)))"

text \<open>binary64, the Python \<open>float\<close> and numpy \<open>float64\<close>; and binary32, in which the
  engine keeps the positions, scales and colors of its nodes (its standard build).\<close>

definition b64 :: "real \<Rightarrow> real" where
  "b64 = round_to 53 (- 1022)"

definition b32 :: "real \<Rightarrow> real" where
  "b32 = round_to 24 (- 126)"

definition fadd :: "real \<Rightarrow> real \<Rightarrow> real" where
  "fadd x y = b64 (x + y)"

definition fsub :: "real \<Rightarrow> real \<Rightarrow> real" where
  "fsub x y = b64 (x - y)"

definition fmul :: "real \<Rightarrow> real \<Rightarrow> real" where
  "fmul x y = b64 (x * y)"

definition fdiv :: "real \<Rightarrow> real \<Rightarrow> real" where
  "fdiv x y = b64 (x / y)"

text \<open>An \<open>int\<close> or a count used in float arithmetic is converted to a float first.\<close>

definition float_of_int :: "int \<Rightarrow> real" where
  "float_of_int k = b64 (of_int k)"

subsection \<open>Conversions of a float to an integer\<close>

text \<open>\<open>int(x)\<close> of a float, and the C conversion behind \<open>astype\<close>: the fraction is
  discarded, towards zero.\<close>

definition py_int :: "real \<Rightarrow> int" where
  "py_int x = (if 0 \<le> x then \<lfloor>x\<rfloor> else \<lceil>x\<rceil>)"

definition in_int16 :: "real \<Rightarrow> bool" where
  "in_int16 v = (- 32768 \<le> py_int v \<and> py_int v \<le> 32767)"

definition in_int32 :: "real \<Rightarrow> bool" where
  "in_int32 v = (- 2147483648 \<le> py_int v \<and> py_int v \<le> 2147483647)"

text \<open>\<open>astype(np.int16)\<close> of one float: numpy converts with the C cast. The hardware
  converts the float to a 32-bit integer, truncating, and the low 16 bits of that are
  stored: a value beyond the \<open>int16\<close> range wraps around. When the truncated value is
  not a 32-bit integer either, what is stored depends on the processor; that result is a
  parameter \<open>oor\<close> of the model.\<close>

definition astype_int16 :: "(real \<Rightarrow> 16 word) \<Rightarrow> real \<Rightarrow> 16 word" where
  "astype_int16 oor v = (if in_int32 v then word_of_int (py_int v) else oor v)"

text \<open>One such processor behaviour, used where a concrete one is needed: the low 16
  bits of the truncated value throughout.\<close>

definition low16_cast :: "real \<Rightarrow> 16 word" where
  "low16_cast v = word_of_int (py_int v)"

text \<open>\<open>(self.audio_data * 32767).astype(np.int16)\<close>, elementwise.\<close>

definition to_playback :: "(real \<Rightarrow> 16 word) \<Rightarrow> real list \<Rightarrow> 16 word list" where
  "to_playback oor audio = map (\<lambda>x. astype_int16 oor (fmul x 32767)) audio"

subsection \<open>Decoded audio and the downmix\<close>

text \<open>What \<open>sf.read\<close> returns: a one-dimensional array of frames (a mono file), or a
  two-dimensional one, one row per frame and one column per channel.\<close>

datatype ndarray = Arr1 "real list" | Arr2 "real list list"

text \<open>\<open>mean(axis=1)\<close>: for every row, the sum of its values divided by their number.
  numpy adds a row of fewer than eight values from left to right, starting from zero,
  and rounds after every addition and after the division. (Longer rows are added in
  blocks of eight, which this model does not follow; the mean of an empty row is \<open>nan\<close>.)\<close>

definition float_mean :: "real list \<Rightarrow> real" where
  "float_mean r = fdiv (foldl fadd 0 r) (float_of_int (int (length r)))"

definition mean_axis1 :: "real list list \<Rightarrow> real list" where
  "mean_axis1 rows = map float_mean rows"

text \<open>\<open>if self.audio_data.ndim > 1: self.audio_data = self.audio_data.mean(axis=1)\<close>:
  only the two-dimensional array has more than one dimension.\<close>

fun to_mono :: "ndarray \<Rightarrow> real list" where
  "to_mono (Arr1 xs) = xs"
| "to_mono (Arr2 rows) = mean_axis1 rows"

subsection \<open>The world outside the script\<close>

datatype read_outcome = Decoded ndarray int | Read_raised string

record world =
  path_exists :: "string \<Rightarrow> bool"
  sf_read :: "string \<Rightarrow> read_outcome"
  play_buffer :: "16 word list \<Rightarrow> nat \<Rightarrow> nat \<Rightarrow> int \<Rightarrow> string option"
  cast_oor :: "real \<Rightarrow> 16 word"

text \<open>\<open>sf_read\<close> either returns the data and the sample rate or raises an exception
  with a message; \<open>play_buffer\<close> returns \<open>Some\<close> message when \<open>sa.play_buffer\<close>
  raises. The events are the calls the script makes on the window, the audio device and
  the scene, with the arguments it passes.\<close>

datatype event =
    Print string
  | Open_window
  | Set_title string
  | Disable_mouse
  | Play_buffer "16 word list" nat nat int
  | Camera_set_pos real real real
  | Camera_look_at real real real
  | New_ambient_light string
  | New_directional_light string
  | Light_color string "real \<times> real \<times> real \<times> real"
  | Attach_node string
  | Set_hpr string real real real
  | Set_light string
  | Load_model string
  | Task_add string
  | Run

subsection \<open>Bars and the application object\<close>

record bar =
  pos :: "real \<times> real \<times> real"
  scale :: "real \<times> real \<times> real"
  color :: "real \<times> real \<times> real \<times> real"

text \<open>The setters of a node store their arguments in single precision.\<close>

definition setPos :: "bar \<Rightarrow> real \<Rightarrow> real \<Rightarrow> real \<Rightarrow> bar" where
  "setPos b x y z = b\<lparr>pos := (b32 x, b32 y, b32 z)\<rparr>"

definition setScale :: "bar \<Rightarrow> real \<Rightarrow> real \<Rightarrow> real \<Rightarrow> bar" where
  "setScale b sx sy sz = b\<lparr>scale := (b32 sx, b32 sy, b32 sz)\<rparr>"

definition setColor :: "bar \<Rightarrow> real \<Rightarrow> real \<Rightarrow> real \<Rightarrow> real \<Rightarrow> bar" where
  "setColor b r g bl al = b\<lparr>color := (b32 r, b32 g, b32 bl, b32 al)\<rparr>"

definition scale_x :: "bar \<Rightarrow> real" where
  "scale_x b = fst (scale b)"

definition scale_y :: "bar \<Rightarrow> real" where
  "scale_y b = fst (snd (scale b))"

definition scale_z :: "bar \<Rightarrow> real" where
  "scale_z b = snd (snd (scale b))"

record app =
  audio_file :: string
  audio_data :: "real list"
  sample_rate :: int
  playback_data :: "16 word list"
  num_bars :: nat
  bars :: "bar list"

text \<open>\<open>play_audio\<close>: the buffer is submitted as one mono 16-bit stream; a failure is
  printed and nothing else.\<close>

definition play_audio :: "world \<Rightarrow> 16 word list \<Rightarrow> int \<Rightarrow> event list" where
  "play_audio w pb sr =
     Play_buffer pb 1 2 sr #
     (case play_buffer w pb 1 2 sr of
        None \<Rightarrow> []
      | Some e \<Rightarrow> [Print (''Error playing audio: '' @ e)])"

definition setup_scene :: "event list" where
  "setup_scene =
     [Camera_set_pos 0 (- 48) 0, Camera_look_at 0 0 0,
      New_ambient_light ''ambient'',
      Light_color ''ambient'' (b64 (2 / 10), b64 (2 / 10), b64 (2 / 10), 1),
      Attach_node ''ambient'', Set_light ''ambient'',
      New_directional_light ''directional'',
      Light_color ''directional'' (b64 (8 / 10), b64 (8 / 10), b64 (8 / 10), 1),
      Attach_node ''directional'', Set_hpr ''directional'' 45 (- 45) 0,
      Set_light ''directional'']"

text \<open>\<open>prepare_bars\<close>: a freshly loaded model, and bar \<open>i\<close> of \<open>n\<close> made from it.\<close>

definition loaded_model :: bar where
  "loaded_model = \<lparr>pos = (0, 0, 0), scale = (1, 1, 1), color = (1, 1, 1, 1)\<rparr>"

definition new_bar :: "nat \<Rightarrow> nat \<Rightarrow> bar" where
  "new_bar n i =
     (let x_pos = fmul (fsub (float_of_int (int i)) (fdiv (float_of_int (int n)) 2)) (b64 (5 / 10));
          b1 = setPos loaded_model x_pos 0 0;
          b2 = setScale b1 (b64 (4 / 10)) (b64 (1 / 10)) (b64 (1 / 10))
      in setColor b2 1
           (fadd (b64 (5 / 10)) (fdiv (float_of_int (int i)) (float_of_int (int n))))
           (fadd (b64 (2 / 10)) (fdiv (float_of_int (int i)) (float_of_int (int n))))
           1)"

definition prepare_bars :: "nat \<times> bar list \<times> event list" where
  "prepare_bars =
     (let n = 64
      in (n, map (new_bar n) [0..<n], map (\<lambda>i. Load_model ''misc/rgbCube'') [0..<n]))"

text \<open>\<open>AudioVisualizer.__init__\<close>.\<close>

definition AudioVisualizer_init :: "world \<Rightarrow> string \<Rightarrow> event list \<times> app" where
  "AudioVisualizer_init w file =
     (let (rd, raw, sr) =
            (case sf_read w file of
               Decoded d r \<Rightarrow> ([], d, r)
             | Read_raised e \<Rightarrow>
                 ([Print (''Error loading audio file: '' @ e)], Arr1 (replicate 1024 0), 44100));
          data = to_mono raw;
          pb = to_playback (cast_oor w) data;
          (n, bs, made) = prepare_bars
      in ([Open_window, Set_title ''Audio Visualizer'', Disable_mouse] @ rd @
          play_audio w pb sr @ setup_scene @ made @ [Task_add ''UpdateVisualization''],
          \<lparr>audio_file = file, audio_data = data, sample_rate = sr, playback_data = pb,
           num_bars = n, bars = bs\<rparr>))"

text \<open>\<open>main\<close>, up to the start of the frame loop.\<close>

definition the_audio_file :: string where
  "the_audio_file = ''LTJ Bukem - Atlantis [-g3RUnx9svM].mp3''"

definition main :: "world \<Rightarrow> event list \<times> app option" where
  "main w =
     (if \<not> path_exists w the_audio_file
      then ([Print (''Error: File not found - '' @ the_audio_file),
             Print ''Please update the audio_file path in the script''], None)
      else (let (evs, a) = AudioVisualizer_init w the_audio_file
            in (evs @ [Run], Some a)))"

text \<open>The script itself: the two lines printed when the module is loaded, then
  \<open>main\<close>.\<close>

definition script :: "world \<Rightarrow> event list \<times> app option" where
  "script w =
     (let (evs, r) = main w
      in ([Print ''Required libraries:'',
           Print ''pip install numpy soundfile panda3d simpleaudio''] @ evs, r))"

fun is_print :: "event \<Rightarrow> bool" where
  "is_print (Print s) = True"
| "is_print e = False"

subsection \<open>The frame update\<close>

datatype task_status = Task_done | Task_cont

text \<open>A slice \<open>xs[lo:hi]\<close> of a sequence: a negative bound counts from the end, and
  each bound is clamped to the sequence.\<close>

definition slice_index :: "nat \<Rightarrow> int \<Rightarrow> nat" where
  "slice_index n i = (if i < 0 then nat (max 0 (i + int n)) else min (nat i) n)"

definition py_slice :: "'a list \<Rightarrow> int \<Rightarrow> int \<Rightarrow> 'a list" where
  "py_slice xs lo hi =
     (let l = slice_index (length xs) lo; h = slice_index (length xs) hi
      in take (h - l) (drop l xs))"

text \<open>\<open>int(current_time * self.sample_rate)\<close>: the product of two floats, rounded, then
  truncated.\<close>

definition start_sample :: "app \<Rightarrow> real \<Rightarrow> int" where
  "start_sample a current_time =
     py_int (fmul current_time (float_of_int (sample_rate a)))"

text \<open>The loop over \<open>enumerate(self.bars)\<close>, from index \<open>i\<close> on.\<close>

fun update_bars :: "real list \<Rightarrow> nat \<Rightarrow> bar list \<Rightarrow> bar list" where
  "update_bars chunk i [] = []"
| "update_bars chunk i (b # bs) =
     (if i < length chunk
      then (let height = fmul \<bar>chunk ! i\<bar> 10
            in setScale b (scale_x b) (b64 (1 / 10)) (max (b64 (1 / 10)) height))
      else b) # update_bars chunk (Suc i) bs"

definition update_visualization :: "app \<Rightarrow> real \<Rightarrow> app \<times> task_status" where
  "update_visualization a current_time =
     (let s = start_sample a current_time
      in if s + int (num_bars a) \<ge> int (length (audio_data a)) then (a, Task_done)
         else (let chunk = py_slice (audio_data a) s (s + int (num_bars a))
               in (a\<lparr>bars := update_bars chunk 0 (bars a)\<rparr>, Task_cont)))"

text \<open>The task manager calls the task once per frame with the elapsed time, again on
  the next frame after \<open>Task.cont\<close> and never again after \<open>Task.done\<close>. The list
  holds the elapsed times of the coming frames.\<close>

fun run_task :: "app \<Rightarrow> real list \<Rightarrow> app" where
  "run_task a [] = a"
| "run_task a (t # ts) =
     (case update_visualization a t of
        (a', Task_done) \<Rightarrow> a'
      | (a', Task_cont) \<Rightarrow> run_task a' ts)"

subsection \<open>States of the application\<close>

text \<open>What \<open>__init__\<close> establishes and every frame update keeps: there are 64 bars, the
  width component of every bar's scale is a single-precision value (the engine holds no
  other) and the depth component is the single-precision 0.1.\<close>

definition scene_ready :: "app \<Rightarrow> bool" where
  "scene_ready a =
     (num_bars a = 64 \<and> length (bars a) = 64 \<and>
      list_all (\<lambda>b. b32 (scale_x b) = scale_x b \<and> scale_y b = b32 (b64 (1 / 10))) (bars a))"

text \<open>A frame in the running state: the elapsed time and the sample rate are not
  negative (\<open>task.time\<close> is the time since the task was added, the rate is in samples
  per second), and the bounds guard of the update lets the frame through.\<close>

definition running :: "app \<Rightarrow> real \<Rightarrow> bool" where
  "running a t =
     (0 \<le> t \<and> 0 \<le> sample_rate a \<and> start_sample a t + 64 < int (length (audio_data a)))"

subsection \<open>The conversion as the specification words it\<close>

text \<open>The specification's sentence on the playback buffer: the sample times 32767,
  rounded to the nearest integer and clipped to the 16-bit signed range.\<close>

definition spec_playback_sample :: "real \<Rightarrow> int" where
  "spec_playback_sample x = max (- 32768) (min 32767 (round (b64 (x * 32767))))"

subsection \<open>Concrete inputs\<close>

text \<open>One second of a mono ramp of 16-bit steps at 44100 Hz, in a world where the file
  exists, decodes and plays; the same world with a file that does not decode; with no
  file at all; and with a two-channel file of two frames.\<close>

definition ramp :: "real list" where
  "ramp = map (\<lambda>i. real i / 32768 - 1 / 2) [0..<44100]"

definition ramp_world :: world where
  "ramp_world =
     \<lparr>path_exists = (\<lambda>p. True), sf_read = (\<lambda>p. Decoded (Arr1 ramp) 44100),
      play_buffer = (\<lambda>pb ch bps sr. None), cast_oor = low16_cast\<rparr>"

definition ramp_app :: app where
  "ramp_app = snd (AudioVisualizer_init ramp_world the_audio_file)"

definition broken_world :: world where
  "broken_world = ramp_world\<lparr>sf_read := (\<lambda>p. Read_raised ''bad header'')\<rparr>"

definition empty_world :: world where
  "empty_world = ramp_world\<lparr>path_exists := (\<lambda>p. False)\<rparr>"


section \<open>Properties\<close>

subsection \<open>Rounding\<close>

lemma rhe_bounds: "\<lfloor>y\<rfloor> \<le> rhe y" "rhe y \<le> \<lfloor>y\<rfloor> + 1"
  by (simp_all add: rhe_def Let_def)

lemma rhe_of_int: "rhe (of_int k) = k"
  by (simp add: rhe_def)

lemma rhe_mono: "a \<le> b \<Longrightarrow> rhe a \<le> rhe b"
proof -
  assume ab: "a \<le> b"
  then have fl: "\<lfloor>a\<rfloor> \<le> \<lfloor>b\<rfloor>" by (rule floor_mono)
  show ?thesis
  proof (cases "\<lfloor>a\<rfloor> = \<lfloor>b\<rfloor>")
    case True
    with ab show ?thesis by (auto simp: rhe_def Let_def)
  next
    case False
    with fl have "\<lfloor>a\<rfloor> + 1 \<le> \<lfloor>b\<rfloor>" by simp
    with rhe_bounds(2) [of a] rhe_bounds(1) [of b] show ?thesis by linarith
  qed
qed

lemma pow2_less_imp: "(2::real) powi a < 2 powi b \<Longrightarrow> a < b"
proof (rule ccontr)
  assume l: "(2::real) powi a < 2 powi b" and "\<not> a < b"
  then have "b \<le> a" by simp
  then have "(2::real) powi b \<le> 2 powi a" by (rule power_int_increasing) simp
  with l show False by simp
qed

lemma expo_bounds:
  assumes "0 < x"
  shows "2 powi (expo x) \<le> x" and "x < 2 powi (expo x + 1)"
proof -
  have "2 powi (expo x) \<le> x \<and> x < 2 powi (expo x + 1)"
  proof (cases "1 \<le> x")
    case True
    let ?n = "\<lfloor>x\<rfloor>"
    from True have n: "0 < ?n" by simp
    from bitlen_bounds [OF n] have lo: "2 ^ nat (bitlen ?n - 1) \<le> ?n"
      and hi: "?n < 2 ^ nat (bitlen ?n)" by simp_all
    from n have b1: "1 \<le> bitlen ?n"
      using bitlen_eq_zero_iff [of ?n] bitlen_nonneg [of ?n] by linarith
    have e: "expo x = bitlen ?n - 1" using True by (simp add: expo_def)
    have "(2::real) powi (bitlen ?n - 1) = 2 ^ nat (bitlen ?n - 1)"
      using b1 by (simp add: power_int_def)
    also have "\<dots> = real_of_int (2 ^ nat (bitlen ?n - 1))" by simp
    also have "\<dots> \<le> real_of_int ?n" using lo by (simp only: of_int_le_iff)
    also have "\<dots> \<le> x" by simp
    finally have 1: "2 powi (expo x) \<le> x" by (simp add: e)
    from hi have "?n + 1 \<le> 2 ^ nat (bitlen ?n)" by simp
    then have "real_of_int (?n + 1) \<le> real_of_int (2 ^ nat (bitlen ?n))"
      by (simp only: of_int_le_iff)
    then have "real_of_int ?n + 1 \<le> 2 ^ nat (bitlen ?n)" by simp
    moreover have "x < real_of_int ?n + 1" by linarith
    ultimately have "x < 2 ^ nat (bitlen ?n)" by linarith
    also have "\<dots> = 2 powi (bitlen ?n)" using b1 by (simp add: power_int_def)
    finally have 2: "x < 2 powi (expo x + 1)" by (simp add: e)
    from 1 2 show ?thesis ..
  next
    case False
    with assms have x1: "x < 1" by simp
    let ?m = "\<lceil>1 / x\<rceil>"
    from assms x1 have "1 < 1 / x" by simp
    then have m2: "2 \<le> ?m" by linarith
    then have n: "0 < ?m - 1" by simp
    from bitlen_bounds [OF n] have lo: "2 ^ nat (bitlen (?m - 1) - 1) \<le> ?m - 1"
      and hi: "?m - 1 < 2 ^ nat (bitlen (?m - 1))" by simp_all
    let ?k = "bitlen (?m - 1)"
    from n have k1: "1 \<le> ?k"
      using bitlen_eq_zero_iff [of "?m - 1"] bitlen_nonneg [of "?m - 1"] by linarith
    have e: "expo x = - ?k" using False by (simp add: expo_def)
    have "1 / x \<le> real_of_int ?m" by simp
    also have "\<dots> \<le> real_of_int (2 ^ nat ?k)"
      using hi by (simp only: of_int_le_iff)
    finally have "1 / x \<le> 2 ^ nat ?k" by simp
    with assms have "1 / 2 ^ nat ?k \<le> x"
      by (simp add: field_simps)
    moreover have "(2::real) powi (- ?k) = 1 / 2 ^ nat ?k"
      using k1 by (simp add: power_int_def field_simps)
    ultimately have 1: "2 powi (expo x) \<le> x" by (simp add: e)
    have "real_of_int (2 ^ nat (?k - 1)) \<le> real_of_int (?m - 1)"
      using lo by (simp only: of_int_le_iff)
    then have "2 ^ nat (?k - 1) \<le> real_of_int ?m - 1" by simp
    moreover have "real_of_int ?m - 1 < 1 / x" by linarith
    ultimately have "2 ^ nat (?k - 1) < 1 / x" by linarith
    with assms have "x < 1 / 2 ^ nat (?k - 1)"
      by (simp add: field_simps)
    moreover have "(2::real) powi (- ?k + 1) = 1 / 2 ^ nat (?k - 1)"
    proof -
      have "- ?k + 1 = - (?k - 1)" by simp
      then have "(2::real) powi (- ?k + 1) = inverse (2 powi (?k - 1))"
        by (simp only: power_int_minus)
      also have "(2::real) powi (?k - 1) = 2 ^ nat (?k - 1)"
        using k1 by (simp add: power_int_def)
      finally show ?thesis by (simp add: field_simps)
    qed
    ultimately have 2: "x < 2 powi (expo x + 1)" by (simp add: e)
    from 1 2 show ?thesis ..
  qed
  then show "2 powi (expo x) \<le> x" and "x < 2 powi (expo x + 1)" by simp_all
qed

lemma expo_mono: "0 < x \<Longrightarrow> x \<le> y \<Longrightarrow> expo x \<le> expo y"
proof -
  assume x: "0 < x" and xy: "x \<le> y"
  then have y: "0 < y" by simp
  from expo_bounds(1) [OF x] xy expo_bounds(2) [OF y]
  have "(2::real) powi (expo x) < 2 powi (expo y + 1)" by linarith
  then have "expo x < expo y + 1" by (rule pow2_less_imp)
  then show ?thesis by simp
qed

lemma expo_unique:
  assumes "0 < x" and "2 powi e \<le> x" and "x < 2 powi (e + 1)"
  shows "expo x = e"
proof -
  from expo_bounds(1) [OF assms(1)] assms(3) have "(2::real) powi (expo x) < 2 powi (e + 1)"
    by linarith
  then have "expo x < e + 1" by (rule pow2_less_imp)
  moreover from assms(2) expo_bounds(2) [OF assms(1)]
  have "(2::real) powi e < 2 powi (expo x + 1)" by linarith
  then have "e < expo x + 1" by (rule pow2_less_imp)
  ultimately show ?thesis by simp
qed


lemma round_to_0: "round_to p emin 0 = 0"
  by (simp add: round_to_def)

lemma round_to_pos:
  "0 < x \<Longrightarrow>
     round_to p emin x =
       of_int (rhe (x / 2 powi (max emin (expo x) - int p + 1))) *
         2 powi (max emin (expo x) - int p + 1)"
  by (simp add: round_to_def Let_def)

lemma round_to_minus: "round_to p emin (- x) = - round_to p emin x"
  by (simp add: round_to_def Let_def sgn_minus)

lemma pow2_split: "(2::real) powi (e + 1) = 2 powi (e - int p + 1) * 2 ^ p"
proof -
  have "(2::real) powi (e + 1) = 2 powi ((e - int p + 1) + int p)" by simp
  also have "\<dots> = 2 powi (e - int p + 1) * 2 powi (int p)"
    by (rule power_int_add) simp
  finally show ?thesis by simp
qed

lemma pow2_split': "0 < p \<Longrightarrow> (2::real) powi e = 2 powi (e - int p + 1) * 2 ^ (p - 1)"
proof -
  assume p: "0 < p"
  have "(2::real) powi e = 2 powi ((e - int p + 1) + int (p - 1))" using p by simp
  also have "\<dots> = 2 powi (e - int p + 1) * 2 powi (int (p - 1))"
    by (rule power_int_add) simp
  finally show ?thesis by simp
qed

lemma round_to_nonneg: "0 \<le> x \<Longrightarrow> 0 \<le> round_to p emin x"
proof (cases "x = 0")
  case True
  then show ?thesis by (simp add: round_to_0)
next
  case False
  assume "0 \<le> x"
  with False have x: "0 < x" by simp
  let ?u = "(2::real) powi (max emin (expo x) - int p + 1)"
  have u: "0 < ?u" by simp
  with x have "0 \<le> x / ?u" by simp
  then have "rhe 0 \<le> rhe (x / ?u)" by (rule rhe_mono)
  then have "0 \<le> rhe (x / ?u)" using rhe_of_int [of 0] by simp
  with u show ?thesis by (simp add: round_to_pos [OF x])
qed

lemma round_to_upper:
  assumes "0 < x"
  shows "round_to p emin x \<le> 2 powi (max emin (expo x) + 1)"
proof -
  let ?E = "max emin (expo x)"
  let ?u = "(2::real) powi (?E - int p + 1)"
  have u: "0 < ?u" by simp
  have "x < 2 powi (expo x + 1)" by (rule expo_bounds(2) [OF assms])
  also have "\<dots> \<le> 2 powi (?E + 1)" by (rule power_int_increasing) simp_all
  also have "\<dots> = ?u * 2 ^ p" by (rule pow2_split)
  finally have "x / ?u \<le> 2 ^ p" using u by (simp add: field_simps)
  then have "rhe (x / ?u) \<le> rhe (2 ^ p)" by (rule rhe_mono)
  also have "rhe (2 ^ p) = 2 ^ p" using rhe_of_int [of "2 ^ p"] by simp
  finally have "real_of_int (rhe (x / ?u)) \<le> real_of_int (2 ^ p)"
    by (simp only: of_int_le_iff)
  then have "real_of_int (rhe (x / ?u)) * ?u \<le> 2 ^ p * ?u"
    using u by (simp add: mult_right_mono)
  then show ?thesis
    by (simp add: round_to_pos [OF assms] pow2_split [of ?E p] mult.commute)
qed

lemma round_to_lower:
  assumes "0 < p" and "0 < x" and "emin \<le> expo x"
  shows "2 powi (expo x) \<le> round_to p emin x"
proof -
  have E: "max emin (expo x) = expo x" using assms(3) by simp
  let ?u = "(2::real) powi (expo x - int p + 1)"
  have u: "0 < ?u" by simp
  have s: "(2::real) powi (expo x) = ?u * 2 ^ (p - 1)" by (rule pow2_split' [OF assms(1)])
  have "2 powi (expo x) \<le> x" by (rule expo_bounds(1) [OF assms(2)])
  then have "2 ^ (p - 1) \<le> x / ?u" using u s by (simp add: field_simps)
  then have "rhe (2 ^ (p - 1)) \<le> rhe (x / ?u)" by (rule rhe_mono)
  moreover have "rhe (2 ^ (p - 1)) = 2 ^ (p - 1)" using rhe_of_int [of "2 ^ (p - 1)"] by simp
  ultimately have "real_of_int (2 ^ (p - 1)) \<le> real_of_int (rhe (x / ?u))"
    by (simp only: of_int_le_iff)
  then have "2 ^ (p - 1) * ?u \<le> real_of_int (rhe (x / ?u)) * ?u"
    using u by (simp add: mult_right_mono)
  then show ?thesis
    by (simp add: round_to_pos [OF assms(2)] E s mult.commute)
qed

lemma round_to_mono_pos:
  assumes p: "0 < p" and x: "0 < x" and xy: "x \<le> y"
  shows "round_to p emin x \<le> round_to p emin y"
proof -
  from x xy have y: "0 < y" by simp
  let ?Ex = "max emin (expo x)" and ?Ey = "max emin (expo y)"
  have ex: "expo x \<le> expo y" by (rule expo_mono [OF x xy])
  then have le: "?Ex \<le> ?Ey" by linarith
  show ?thesis
  proof (cases "?Ex = ?Ey")
    case True
    let ?u = "(2::real) powi (?Ey - int p + 1)"
    have u: "0 < ?u" by simp
    from xy u have "x / ?u \<le> y / ?u" by (simp add: divide_right_mono)
    then have "rhe (x / ?u) \<le> rhe (y / ?u)" by (rule rhe_mono)
    then have "real_of_int (rhe (x / ?u)) * ?u \<le> real_of_int (rhe (y / ?u)) * ?u"
      using u by (simp add: mult_right_mono)
    then show ?thesis
      by (simp add: round_to_pos [OF x] round_to_pos [OF y] True)
  next
    case False
    with le have lt: "?Ex < ?Ey" by linarith
    then have ey: "emin \<le> expo y" and Ey: "?Ey = expo y" by linarith+
    have "round_to p emin x \<le> 2 powi (?Ex + 1)" by (rule round_to_upper [OF x])
    also have "\<dots> \<le> 2 powi (expo y)"
    proof (rule power_int_increasing)
      show "?Ex + 1 \<le> expo y" using lt Ey by linarith
    qed simp
    also have "\<dots> \<le> round_to p emin y" by (rule round_to_lower [OF p y ey])
    finally show ?thesis .
  qed
qed

lemma round_to_mono:
  assumes p: "0 < p" and xy: "x \<le> y"
  shows "round_to p emin x \<le> round_to p emin y"
proof -
  consider "0 < x" | "x = 0" | "x < 0" "0 \<le> y" | "x < 0" "y < 0" by linarith
  then show ?thesis
  proof cases
    case 1
    then show ?thesis using xy by (rule round_to_mono_pos [OF p])
  next
    case 2
    with xy round_to_nonneg [of y p emin] show ?thesis by (simp add: round_to_0)
  next
    case 3
    then have "0 \<le> round_to p emin (- x)" by (intro round_to_nonneg) simp
    then have "round_to p emin x \<le> 0" by (simp add: round_to_minus)
    also have "0 \<le> round_to p emin y" using 3 by (intro round_to_nonneg)
    finally show ?thesis .
  next
    case 4
    then have "0 < - y" and "- y \<le> - x" using xy by simp_all
    then have "round_to p emin (- y) \<le> round_to p emin (- x)"
      by (rule round_to_mono_pos [OF p])
    then show ?thesis by (simp add: round_to_minus)
  qed
qed

lemma b64_mono: "x \<le> y \<Longrightarrow> b64 x \<le> b64 y"
  unfolding b64_def by (rule round_to_mono) simp

lemma b32_mono: "x \<le> y \<Longrightarrow> b32 x \<le> b32 y"
  unfolding b32_def by (rule round_to_mono) simp

lemma b64_0: "b64 0 = 0"
  by (simp add: b64_def round_to_0)

lemma b64_nonneg: "0 \<le> x \<Longrightarrow> 0 \<le> b64 x"
  unfolding b64_def by (rule round_to_nonneg)

lemma fmul_mono_left: "0 \<le> c \<Longrightarrow> x \<le> y \<Longrightarrow> fmul x c \<le> fmul y c"
  by (simp add: fmul_def b64_mono mult_right_mono)

lemma fmul_nonneg: "0 \<le> x \<Longrightarrow> 0 \<le> y \<Longrightarrow> 0 \<le> fmul x y"
  by (simp add: fmul_def b64_nonneg)

lemma float_of_int_nonneg: "0 \<le> k \<Longrightarrow> 0 \<le> float_of_int k"
  by (simp add: float_of_int_def b64_nonneg)

lemma fmul_zero: "fmul 0 y = 0"
  by (simp add: fmul_def b64_0)

subsection \<open>Integer conversions\<close>

lemma py_int_nonneg: "0 \<le> x \<Longrightarrow> py_int x = \<lfloor>x\<rfloor>"
  by (simp add: py_int_def)

lemma py_int_ge0: "0 \<le> x \<Longrightarrow> 0 \<le> py_int x"
  by (simp add: py_int_def)

lemma py_int_mono: "x \<le> y \<Longrightarrow> py_int x \<le> py_int y"
proof -
  assume xy: "x \<le> y"
  consider "0 \<le> x" | "x < 0" "y < 0" | "x < 0" "0 \<le> y" by linarith
  then show ?thesis
  proof cases
    case 1
    with xy show ?thesis by (simp add: py_int_def floor_mono)
  next
    case 2
    with xy show ?thesis by (simp add: py_int_def ceiling_mono)
  next
    case 3
    then have "\<lceil>x\<rceil> \<le> 0" and "0 \<le> \<lfloor>y\<rfloor>" by (simp_all add: ceiling_le_iff)
    then have "\<lceil>x\<rceil> \<le> \<lfloor>y\<rfloor>" by linarith
    with 3 show ?thesis by (simp add: py_int_def)
  qed
qed

lemma sint16: "- 32768 \<le> k \<Longrightarrow> k \<le> 32767 \<Longrightarrow> sint (word_of_int k :: 16 word) = k"
  by (simp add: signed_of_int signed_take_bit_int_eq_self)

lemma sint16_wrap: "sint (word_of_int k :: 16 word) = signed_take_bit 15 k"
  by (simp add: signed_of_int)

lemma start_sample_ge0: "0 \<le> t \<Longrightarrow> 0 \<le> sample_rate a \<Longrightarrow> 0 \<le> start_sample a t"
  by (simp add: start_sample_def py_int_ge0 fmul_nonneg float_of_int_nonneg)

lemma start_sample_mono:
  "0 \<le> sample_rate a \<Longrightarrow> t \<le> t' \<Longrightarrow> start_sample a t \<le> start_sample a t'"
  by (simp add: start_sample_def py_int_mono fmul_mono_left float_of_int_nonneg)

subsection \<open>The application object after \<open>__init__\<close>\<close>

lemma init_fields:
  "audio_file (snd (AudioVisualizer_init w f)) = f"
  "num_bars (snd (AudioVisualizer_init w f)) = 64"
  "bars (snd (AudioVisualizer_init w f)) = map (new_bar 64) [0..<64]"
  "playback_data (snd (AudioVisualizer_init w f)) =
     to_playback (cast_oor w) (audio_data (snd (AudioVisualizer_init w f)))"
  by (simp_all add: AudioVisualizer_init_def prepare_bars_def Let_def
      split: read_outcome.splits prod.splits)

lemma init_decoded:
  "sf_read w f = Decoded d r \<Longrightarrow> audio_data (snd (AudioVisualizer_init w f)) = to_mono d"
  "sf_read w f = Decoded d r \<Longrightarrow> sample_rate (snd (AudioVisualizer_init w f)) = r"
  by (simp_all add: AudioVisualizer_init_def prepare_bars_def Let_def split: prod.splits)

lemma ramp_app_fields:
  "audio_data ramp_app = ramp" "sample_rate ramp_app = 44100" "num_bars ramp_app = 64"
  "bars ramp_app = map (new_bar 64) [0..<64]"
  by (simp_all add: ramp_app_def init_fields
      init_decoded [where d = "Arr1 ramp" and r = 44100] ramp_world_def)

lemma ramp_offsets:
  "py_int (fmul 1 (float_of_int 44100)) = 44100"
  "py_int (fmul 2 (float_of_int 44100)) = 88200"
  "py_int (fmul (3 / 4) (float_of_int 44100)) = 33075"
  "py_int (fmul (1 / 4) (float_of_int 44100)) = 11025"
  "py_int (fmul (b64 (3 / 100)) (float_of_int 44100)) = 1323"
  by code_simp+

lemma ramp_start:
  "start_sample ramp_app 1 = 44100" "start_sample ramp_app 2 = 88200"
  "start_sample ramp_app (3 / 4) = 33075" "start_sample ramp_app (1 / 4) = 11025"
  "start_sample ramp_app (b64 (3 / 100)) = 1323"
  unfolding start_sample_def ramp_app_fields by (rule ramp_offsets)+

text \<open>The rounded products at some values of the code: the offset of the elapsed time
  0.03 at 100 Hz and of 0.29 at 44100 Hz, and the height of the sample 0.1.\<close>

lemma rounded_products:
  "py_int (fmul (b64 (3 / 100)) (float_of_int 100)) = 3"
  "py_int (fmul (b64 (29 / 100)) (float_of_int 44100)) = 12789"
  "fmul \<bar>b64 (1 / 10)\<bar> 10 = 1"
  by code_simp+

lemma length_ramp: "length ramp = 44100"
  by (simp add: ramp_def)

lemma nth_ramp: "i < 44100 \<Longrightarrow> ramp ! i = real i / 32768 - 1 / 2"
  by (simp add: ramp_def)

lemma astype_zero: "astype_int16 oor 0 = 0"
  by (simp add: astype_int16_def in_int32_def py_int_def)

lemma to_playback_silence: "to_playback oor (replicate n 0) = replicate n 0"
  by (simp add: to_playback_def astype_zero fmul_zero)

lemma prepare_bars_eq:
  "prepare_bars = (64, map (new_bar 64) [0..<64], replicate 64 (Load_model ''misc/rgbCube''))"
  by (simp add: prepare_bars_def Let_def map_replicate_const)

lemma scale_new_bar:
  "scale (new_bar n i) = (b32 (b64 (4 / 10)), b32 (b64 (1 / 10)), b32 (b64 (1 / 10)))"
  by (simp add: new_bar_def Let_def setColor_def setScale_def setPos_def)

lemma single_width: "b32 (b32 (b64 (2 / 5))) = b32 (b64 (2 / 5))"
  by code_simp

subsection \<open>The playback buffer\<close>

lemma playback_products:
  "b64 (32767 / 4) = 32767 / 4" "b64 (163835 / 4) = 163835 / 4"
  "b64 (b64 (1 / 32767) * 32767) = 1"
  by code_simp+

lemma wrap_40958: "signed_take_bit 15 (40958 :: int) = - 24578"
  by code_simp

text \<open>
  C1. The specification has the playback sample rounded to the nearest integer and
  clipped to the 16-bit range. The code converts with \<open>astype\<close>, which discards the
  fraction and keeps the low 16 bits: in the sequence \<open>0.25, 1.25\<close> the first sample
  gives \<open>8191.75\<close>, stored as \<open>8191\<close> where rounding gives \<open>8192\<close>, and the second
  gives \<open>40958.75\<close>, stored as \<open>-24578\<close> where clipping gives \<open>32767\<close>.
\<close>

theorem playback_round_clip_counterexample:
  "sint (to_playback low16_cast [1 / 4, 5 / 4] ! 0) \<noteq> spec_playback_sample (1 / 4) \<and>
   sint (to_playback low16_cast [1 / 4, 5 / 4] ! 1) \<noteq> spec_playback_sample (5 / 4)"
  by (simp add: to_playback_def astype_int16_def in_int32_def py_int_def fmul_def
      spec_playback_sample_def round_def playback_products)

text \<open>
  C1, as the code has it: the playback buffer is as long as the sample sequence; and
  wherever the binary64 product of the sample and 32767, truncated towards zero, is a
  32-bit integer, the playback sample is that truncated product reduced to 16 bits by
  wrap-around, which is the truncated product itself when it lies in the 16-bit signed
  range.
\<close>

theorem playback_truncates_and_wraps:
  assumes "i < length audio" and "in_int32 (b64 (audio ! i * 32767))"
  shows "length (to_playback oor audio) = length audio \<and>
         sint (to_playback oor audio ! i) =
           signed_take_bit 15 (py_int (b64 (audio ! i * 32767))) \<and>
         (in_int16 (b64 (audio ! i * 32767)) \<longrightarrow>
            sint (to_playback oor audio ! i) = py_int (b64 (audio ! i * 32767)))"
proof -
  let ?k = "py_int (b64 (audio ! i * 32767))"
  have w: "to_playback oor audio ! i = word_of_int ?k"
    using assms by (simp add: to_playback_def astype_int16_def fmul_def)
  have l: "length (to_playback oor audio) = length audio"
    by (simp add: to_playback_def)
  have s: "sint (to_playback oor audio ! i) = signed_take_bit 15 ?k"
    by (simp only: w sint16_wrap)
  have "signed_take_bit 15 ?k = ?k" if "in_int16 (b64 (audio ! i * 32767))"
    using that by (simp add: in_int16_def signed_take_bit_int_eq_self)
  with l s show ?thesis by simp
qed

theorem playback_truncates_and_wraps_witness:
  "(1::nat) < length [b64 (1 / 32767), 5 / 4] \<and>
   in_int32 (b64 ([b64 (1 / 32767), 5 / 4] ! 1 * 32767)) \<and>
   in_int32 (b64 ([b64 (1 / 32767), 5 / 4] ! 0 * 32767)) \<and>
   in_int16 (b64 ([b64 (1 / 32767), 5 / 4] ! 0 * 32767)) \<and>
   length (to_playback low16_cast [b64 (1 / 32767), 5 / 4]) = 2 \<and>
   sint (to_playback low16_cast [b64 (1 / 32767), 5 / 4] ! 0) = 1 \<and>
   sint (to_playback low16_cast [b64 (1 / 32767), 5 / 4] ! 1) = - 24578"
proof -
  let ?xs = "[b64 (1 / 32767), 5 / 4 :: real]"
  have i0: "(0::nat) < length ?xs" and i1: "(1::nat) < length ?xs" by simp_all
  have p0: "b64 (?xs ! 0 * 32767) = 1" by (simp add: playback_products)
  have p1: "b64 (?xs ! 1 * 32767) = 163835 / 4" by (simp add: playback_products)
  have a0: "in_int32 (b64 (?xs ! 0 * 32767))" and b0: "in_int16 (b64 (?xs ! 0 * 32767))"
    unfolding p0 by (simp_all add: in_int32_def in_int16_def py_int_def)
  have a1: "in_int32 (b64 (?xs ! 1 * 32767))"
    unfolding p1 by (simp add: in_int32_def py_int_def)
  have v0: "py_int (b64 (?xs ! 0 * 32767)) = 1"
    unfolding p0 by (simp add: py_int_def)
  have v1: "signed_take_bit 15 (py_int (b64 (?xs ! 1 * 32767))) = - 24578"
    unfolding p1 by (simp add: py_int_def wrap_40958)
  note t0 = playback_truncates_and_wraps [OF i0 a0, of low16_cast]
    and t1 = playback_truncates_and_wraps [OF i1 a1, of low16_cast]
  have r0: "sint (to_playback low16_cast ?xs ! 0) = 1"
    using t0 b0 v0 by simp
  have r1: "sint (to_playback low16_cast ?xs ! 1) = - 24578"
    using t1 v1 by simp
  have l: "length (to_playback low16_cast ?xs) = 2"
    using t0 by simp
  from i1 a1 a0 b0 l r0 r1 show ?thesis by (intro conjI)
qed

subsection \<open>The downmix\<close>





subsection \<open>The sample offset of a frame\<close>

text \<open>
  C4. For an elapsed time and a sample rate that are not negative, the sample offset of
  the frame update is the floor of their product, the product being the float product
  the code computes.
\<close>

theorem start_sample_floor:
  assumes "0 \<le> t" and "0 \<le> sample_rate a"
  shows "start_sample a t = \<lfloor>b64 (t * b64 (real_of_int (sample_rate a)))\<rfloor>"
proof -
  have "0 \<le> fmul t (float_of_int (sample_rate a))"
    using assms by (simp add: fmul_nonneg float_of_int_nonneg)
  then have "start_sample a t = \<lfloor>fmul t (float_of_int (sample_rate a))\<rfloor>"
    by (simp add: start_sample_def py_int_nonneg)
  then show ?thesis by (simp only: fmul_def float_of_int_def)
qed

lemma exact_offset: "\<lfloor>b64 (3 / 100) * 44100\<rfloor> = (1322 :: int)"
  by code_simp

theorem start_sample_floor_witness:
  "0 \<le> b64 (3 / 100) \<and> 0 \<le> sample_rate ramp_app \<and>
   start_sample ramp_app (b64 (3 / 100)) = 1323 \<and>
   \<lfloor>b64 (b64 (3 / 100) * b64 (real_of_int (sample_rate ramp_app)))\<rfloor> = 1323 \<and>
   \<lfloor>b64 (3 / 100) * real_of_int (sample_rate ramp_app)\<rfloor> = 1322"
proof -
  have h1: "0 \<le> b64 (3 / 100)" by (rule b64_nonneg) simp
  have h2: "0 \<le> sample_rate ramp_app" by (simp add: ramp_app_fields)
  have e: "\<lfloor>b64 (3 / 100) * real_of_int (sample_rate ramp_app)\<rfloor> = 1322"
    using exact_offset by (simp add: ramp_app_fields)
  have f: "\<lfloor>b64 (b64 (3 / 100) * b64 (real_of_int (sample_rate ramp_app)))\<rfloor> = 1323"
    using start_sample_floor [OF h1 h2] ramp_start(5) by (simp only:)
  from h1 h2 ramp_start(5) f e show ?thesis by (intro conjI)
qed

subsection \<open>Slices and the loop over the bars\<close>

lemma py_slice_inside:
  assumes "0 \<le> lo" and "lo \<le> hi" and "hi \<le> int (length xs)"
  shows "py_slice xs lo hi = take (nat (hi - lo)) (drop (nat lo) xs)"
proof -
  have l: "slice_index (length xs) lo = nat lo"
    using assms by (simp add: slice_index_def)
  have h: "slice_index (length xs) hi = nat hi"
    using assms by (simp add: slice_index_def)
  have "nat hi - nat lo = nat (hi - lo)"
    using assms by simp
  then show ?thesis
    by (simp add: py_slice_def l h)
qed

text \<open>A negative start index is read from the end of the buffer, so the window of a
  negative elapsed time is not the 64 samples after the start index.\<close>

lemma py_slice_negative_start: "py_slice ramp (- 1) 63 = []"
  by (simp add: py_slice_def slice_index_def ramp_def)

lemma length_py_slice_inside:
  assumes "0 \<le> lo" and "lo \<le> hi" and "hi \<le> int (length xs)"
  shows "length (py_slice xs lo hi) = nat (hi - lo)"
  using assms by (simp add: py_slice_inside)

lemma nth_py_slice_inside:
  assumes "0 \<le> lo" and "lo \<le> hi" and "hi \<le> int (length xs)" and "i < nat (hi - lo)"
  shows "py_slice xs lo hi ! i = xs ! (nat lo + i)"
  using assms by (simp add: py_slice_inside)

lemma length_update_bars: "length (update_bars chunk i bs) = length bs"
  by (induction bs arbitrary: i) simp_all

lemma nth_update_bars:
  "k < length bs \<Longrightarrow>
     update_bars chunk i bs ! k =
       (if i + k < length chunk
        then setScale (bs ! k) (scale_x (bs ! k)) (b64 (1 / 10))
               (max (b64 (1 / 10)) (fmul \<bar>chunk ! (i + k)\<bar> 10))
        else bs ! k)"
proof (induction bs arbitrary: i k)
  case Nil
  then show ?case by simp
next
  case (Cons b bs)
  show ?case
  proof (cases k)
    case 0
    then show ?thesis by (simp add: Let_def)
  next
    case (Suc j)
    with Cons.prems have "j < length bs" by simp
    from Cons.IH [OF this, of "Suc i"] Suc show ?thesis by simp
  qed
qed

lemma setScale_fields:
  "pos (setScale b x y z) = pos b" "color (setScale b x y z) = color b"
  "scale (setScale b x y z) = (b32 x, b32 y, b32 z)"
  "scale_x (setScale b x y z) = b32 x" "scale_y (setScale b x y z) = b32 y"
  "scale_z (setScale b x y z) = b32 z"
  by (simp_all add: setScale_def scale_x_def scale_y_def scale_z_def)

lemma update_done:
  "int (length (audio_data a)) \<le> start_sample a t + int (num_bars a) \<Longrightarrow>
     update_visualization a t = (a, Task_done)"
  by (simp add: update_visualization_def Let_def)

lemma update_cont:
  "start_sample a t + int (num_bars a) < int (length (audio_data a)) \<Longrightarrow>
     update_visualization a t =
       (a\<lparr>bars := update_bars
            (py_slice (audio_data a) (start_sample a t) (start_sample a t + int (num_bars a)))
            0 (bars a)\<rparr>, Task_cont)"
  by (simp add: update_visualization_def Let_def)

lemma update_keeps:
  "audio_data (fst (update_visualization a t)) = audio_data a"
  "sample_rate (fst (update_visualization a t)) = sample_rate a"
  "num_bars (fst (update_visualization a t)) = num_bars a"
  "playback_data (fst (update_visualization a t)) = playback_data a"
  "length (bars (fst (update_visualization a t))) = length (bars a)"
  by (simp_all add: update_visualization_def Let_def length_update_bars)

lemma update_status:
  "snd (update_visualization a t) =
     (if start_sample a t + int (num_bars a) < int (length (audio_data a))
      then Task_cont else Task_done)"
  by (simp add: update_visualization_def Let_def)

lemma kept_update_bars:
  "list_all (\<lambda>b. b32 (scale_x b) = scale_x b \<and> scale_y b = b32 (b64 (1 / 10))) bs \<Longrightarrow>
     list_all (\<lambda>b. b32 (scale_x b) = scale_x b \<and> scale_y b = b32 (b64 (1 / 10)))
       (update_bars chunk i bs)"
  by (induction bs arbitrary: i) (simp_all add: Let_def setScale_fields)

lemma scene_ready_init: "scene_ready (snd (AudioVisualizer_init w f))"
  by (simp add: scene_ready_def init_fields list_all_iff scale_x_def scale_y_def
      scale_new_bar single_width)

lemma scene_ready_update:
  "scene_ready a \<Longrightarrow> scene_ready (fst (update_visualization a t))"
  using kept_update_bars [of "bars a"]
  by (auto simp: scene_ready_def update_visualization_def Let_def length_update_bars)

lemma scene_ready_run_task: "scene_ready a \<Longrightarrow> scene_ready (run_task a ts)"
proof (induction ts arbitrary: a)
  case Nil
  then show ?case by simp
next
  case (Cons t ts)
  from Cons.prems have r: "scene_ready (fst (update_visualization a t))"
    by (rule scene_ready_update)
  show ?case
  proof (cases "update_visualization a t")
    case (Pair a' st)
    with r have "scene_ready a'" by simp
    with Pair Cons.IH show ?thesis by (cases st) simp_all
  qed
qed

lemma scene_ready_nth:
  assumes "scene_ready a" and "i < 64"
  shows "b32 (scale_x (bars a ! i)) = scale_x (bars a ! i)"
    and "scale_y (bars a ! i) = b32 (b64 (1 / 10))"
  using assms by (simp_all add: scene_ready_def list_all_length)

lemma running_chunk:
  assumes "running a t" and "num_bars a = 64"
  shows "length (py_slice (audio_data a) (start_sample a t) (start_sample a t + 64)) = 64"
    and "i < 64 \<Longrightarrow> py_slice (audio_data a) (start_sample a t) (start_sample a t + 64) ! i
           = audio_data a ! (nat (start_sample a t) + i)"
    and "i < 64 \<Longrightarrow> nat (start_sample a t) + i < length (audio_data a)"
proof -
  have s: "0 \<le> start_sample a t"
    using assms by (simp add: running_def start_sample_ge0)
  have h: "start_sample a t + 64 \<le> int (length (audio_data a))"
    using assms by (simp add: running_def)
  show "length (py_slice (audio_data a) (start_sample a t) (start_sample a t + 64)) = 64"
    using s h by (simp add: length_py_slice_inside)
  show "i < 64 \<Longrightarrow> py_slice (audio_data a) (start_sample a t) (start_sample a t + 64) ! i
           = audio_data a ! (nat (start_sample a t) + i)"
    using s h by (simp add: nth_py_slice_inside)
  show "i < 64 \<Longrightarrow> nat (start_sample a t) + i < length (audio_data a)"
    using s assms by (simp add: running_def) linarith
qed

lemma update_running:
  assumes "scene_ready a" and "running a t"
  shows "update_visualization a t =
           (a\<lparr>bars := update_bars
                (py_slice (audio_data a) (start_sample a t) (start_sample a t + 64))
                0 (bars a)\<rparr>, Task_cont)"
proof -
  have n: "num_bars a = 64"
    using assms(1) by (simp add: scene_ready_def)
  then have "start_sample a t + int (num_bars a) < int (length (audio_data a))"
    using assms(2) by (simp add: running_def)
  from update_cont [OF this] n show ?thesis by simp
qed

lemma nth_bars_running:
  assumes "scene_ready a" and "running a t" and "i < 64"
  shows "bars (fst (update_visualization a t)) ! i =
           setScale (bars a ! i) (scale_x (bars a ! i)) (b64 (1 / 10))
             (max (b64 (1 / 10)) (fmul \<bar>audio_data a ! (nat (start_sample a t) + i)\<bar> 10))"
proof -
  have n: "num_bars a = 64" and l: "length (bars a) = 64"
    using assms(1) by (simp_all add: scene_ready_def)
  let ?chunk = "py_slice (audio_data a) (start_sample a t) (start_sample a t + 64)"
  have "update_bars ?chunk 0 (bars a) ! i =
          setScale (bars a ! i) (scale_x (bars a ! i)) (b64 (1 / 10))
            (max (b64 (1 / 10)) (fmul \<bar>?chunk ! i\<bar> 10))"
    using assms(3) l running_chunk(1) [OF assms(2) n] by (simp add: nth_update_bars)
  also have "?chunk ! i = audio_data a ! (nat (start_sample a t) + i)"
    using assms(3) by (rule running_chunk(2) [OF assms(2) n])
  finally show ?thesis
    by (simp add: update_running [OF assms(1,2)])
qed

lemma running_ramp: "running ramp_app (3 / 4)" "running ramp_app (b64 (3 / 100))"
proof -
  have "0 \<le> b64 (3 / 100)" by (rule b64_nonneg) simp
  then show "running ramp_app (3 / 4)" "running ramp_app (b64 (3 / 100))"
    by (simp_all add: running_def ramp_app_fields(1,2) ramp_start length_ramp)
qed

lemma scene_ready_ramp: "scene_ready ramp_app"
  unfolding ramp_app_def by (rule scene_ready_init)

lemma setScale_again:
  "b32 (scale_x b) = scale_x b \<Longrightarrow>
     setScale (setScale b (scale_x b) y z) (scale_x (setScale b (scale_x b) y z)) y z =
     setScale b (scale_x b) y z"
  by (simp add: setScale_def scale_x_def)

lemma update_bars_idem:
  "list_all (\<lambda>b. b32 (scale_x b) = scale_x b) bs \<Longrightarrow>
     update_bars chunk i (update_bars chunk i bs) = update_bars chunk i bs"
  by (induction bs arbitrary: i) (simp_all add: Let_def setScale_again)

lemma update_idem:
  assumes "scene_ready a"
  shows "update_visualization (fst (update_visualization a t)) t = update_visualization a t"
proof (cases "start_sample a t + int (num_bars a) < int (length (audio_data a))")
  case True
  let ?chunk = "py_slice (audio_data a) (start_sample a t) (start_sample a t + int (num_bars a))"
  let ?a' = "a\<lparr>bars := update_bars ?chunk 0 (bars a)\<rparr>"
  have w: "list_all (\<lambda>b. b32 (scale_x b) = scale_x b) (bars a)"
    using assms by (simp add: scene_ready_def list_all_iff)
  have u: "update_visualization a t = (?a', Task_cont)"
    by (rule update_cont [OF True])
  have s: "start_sample ?a' t = start_sample a t"
    by (simp add: start_sample_def)
  have "start_sample ?a' t + int (num_bars ?a') < int (length (audio_data ?a'))"
    using True s by simp
  from update_cont [OF this] s have "update_visualization ?a' t = (?a', Task_cont)"
    by (simp add: update_bars_idem [OF w])
  with u show ?thesis by simp
next
  case False
  then have "update_visualization a t = (a, Task_done)"
    by (simp add: update_done)
  then show ?thesis by simp
qed

lemma single_tenth: "1 / 10 \<le> b32 (b64 (1 / 10))"
  by code_simp

subsection \<open>The stopped state\<close>

text \<open>
  C2. When the start index of a frame plus 64 reaches or passes the length of the sample
  buffer, the update changes nothing and returns the stop signal; the task manager does
  not call it again, whatever frames follow, and called all the same at any later time
  (with a sample rate that is not negative) it again changes nothing and returns the stop
  signal.
\<close>

theorem stopped_is_absorbing:
  assumes "num_bars a = 64" and "int (length (audio_data a)) \<le> start_sample a t + 64"
  shows "update_visualization a t = (a, Task_done) \<and>
         run_task a (t # ts) = a \<and>
         (0 \<le> sample_rate a \<longrightarrow> (\<forall>t'\<ge>t. update_visualization a t' = (a, Task_done)))"
proof -
  have d: "update_visualization a t = (a, Task_done)"
    using assms by (simp add: update_done)
  have later: "update_visualization a t' = (a, Task_done)"
    if "0 \<le> sample_rate a" and "t \<le> t'" for t'
  proof -
    from that have "start_sample a t \<le> start_sample a t'" by (rule start_sample_mono)
    with assms show ?thesis by (simp add: update_done)
  qed
  from d later show ?thesis by simp
qed

theorem stopped_is_absorbing_witness:
  "num_bars ramp_app = 64 \<and>
   int (length (audio_data ramp_app)) \<le> start_sample ramp_app 1 + 64 \<and>
   update_visualization ramp_app 1 = (ramp_app, Task_done) \<and>
   run_task ramp_app [1, 2] = ramp_app \<and>
   update_visualization ramp_app 2 = (ramp_app, Task_done)"
proof -
  have h1: "num_bars ramp_app = 64" by (simp add: ramp_app_fields)
  have h2: "int (length (audio_data ramp_app)) \<le> start_sample ramp_app 1 + 64"
    by (simp add: ramp_app_fields ramp_start length_ramp)
  have h3: "0 \<le> sample_rate ramp_app" by (simp add: ramp_app_fields)
  from stopped_is_absorbing [OF h1 h2, of "[2]"] h1 h2 h3 show ?thesis by simp
qed

subsection \<open>The running state\<close>

text \<open>
  C3. In the running state the update sets the scale of bar \<open>i\<close> with the height
  argument \<open>max(0.1, |sample[start + i]| * 10)\<close>, the product being the float product
  the code computes. The bar's scale is then its old width, the depth 0.1 and that
  height, as the engine holds them in single precision, and the height it holds is never
  below 0.1.
\<close>

theorem bar_height_assigned:
  assumes "scene_ready a" and "running a t" and "i < 64"
  shows "bars (fst (update_visualization a t)) ! i =
           setScale (bars a ! i) (fst (scale (bars a ! i))) (b64 (1 / 10))
             (max (b64 (1 / 10)) (b64 (\<bar>audio_data a ! (nat (start_sample a t) + i)\<bar> * 10))) \<and>
         scale (bars (fst (update_visualization a t)) ! i) =
           (fst (scale (bars a ! i)), b32 (b64 (1 / 10)),
            b32 (max (b64 (1 / 10))
                  (b64 (\<bar>audio_data a ! (nat (start_sample a t) + i)\<bar> * 10)))) \<and>
         1 / 10 \<le> snd (snd (scale (bars (fst (update_visualization a t)) ! i)))"
proof -
  let ?h = "max (b64 (1 / 10)) (fmul \<bar>audio_data a ! (nat (start_sample a t) + i)\<bar> 10)"
  note n = nth_bars_running [OF assms]
  have x: "b32 (fst (scale (bars a ! i))) = fst (scale (bars a ! i))"
    using scene_ready_nth(1) [OF assms(1,3)] by (simp add: scale_x_def)
  have "b32 (b64 (1 / 10)) \<le> b32 ?h" by (rule b32_mono) simp
  with single_tenth have z: "1 / 10 \<le> b32 ?h" by linarith
  have c1: "bars (fst (update_visualization a t)) ! i =
      setScale (bars a ! i) (fst (scale (bars a ! i))) (b64 (1 / 10)) ?h"
    using n by (simp only: scale_x_def)
  have c2: "scale (bars (fst (update_visualization a t)) ! i) =
      (fst (scale (bars a ! i)), b32 (b64 (1 / 10)), b32 ?h)"
    by (simp only: c1 setScale_fields x)
  have c3: "1 / 10 \<le> snd (snd (scale (bars (fst (update_visualization a t)) ! i)))"
    using z by (simp only: c2 snd_conv)
  from c1 c2 c3 show ?thesis unfolding fmul_def by (intro conjI)
qed

lemma ramp_heights:
  "b32 (max (b64 (1 / 10)) (b64 (\<bar>- 15061 / 32768\<bar> * 10))) = 75305 / 16384"
  "b32 (max (b64 (1 / 10)) (b64 (\<bar>8377 / 16384\<bar> * 10))) = 41885 / 8192"
  "b32 (max (b64 (1 / 10)) (b64 (\<bar>16691 / 32768\<bar> * 10))) = 83455 / 16384"
  by code_simp+

lemma ramp_samples:
  "audio_data ramp_app ! (nat (start_sample ramp_app (b64 (3 / 100))) + 0) = - 15061 / 32768"
  "audio_data ramp_app ! (nat (start_sample ramp_app (3 / 4)) + 63) = 8377 / 16384"
  "audio_data ramp_app ! (nat (start_sample ramp_app (3 / 4)) + 0) = 16691 / 32768"
  by (simp_all add: ramp_app_fields(1) ramp_start nth_ramp)

lemma ramp_bar_width:
  "i < 64 \<Longrightarrow> fst (scale (bars ramp_app ! i)) = b32 (b64 (4 / 10))"
  by (simp add: ramp_app_fields scale_new_bar)

theorem bar_height_assigned_witness:
  "scene_ready ramp_app \<and> running ramp_app (b64 (3 / 100)) \<and> (0::nat) < 64 \<and>
   start_sample ramp_app (b64 (3 / 100)) = 1323 \<and>
   scale (bars (fst (update_visualization ramp_app (b64 (3 / 100)))) ! 0) =
     (b32 (b64 (4 / 10)), b32 (b64 (1 / 10)), 75305 / 16384)"
proof -
  have h3: "(0::nat) < 64" by simp
  have w: "fst (scale (bars ramp_app ! 0)) = b32 (b64 (4 / 10))"
    by (rule ramp_bar_width) simp
  have "scale (bars (fst (update_visualization ramp_app (b64 (3 / 100)))) ! 0) =
      (b32 (b64 (4 / 10)), b32 (b64 (1 / 10)), 75305 / 16384)"
    using bar_height_assigned [OF scene_ready_ramp running_ramp(2) h3, THEN conjunct2,
        THEN conjunct1]
    by (simp only: ramp_samples ramp_heights w)
  with scene_ready_ramp running_ramp(2) ramp_start(5) show ?thesis by simp
qed

text \<open>
  C10. In the running state the extracted chunk has exactly 64 elements, element \<open>i\<close>
  of it is the sample at the start index plus \<open>i\<close>, which lies inside the buffer, the
  update returns the continue signal, and each of the 64 bars has its scale set: to its
  old width, the depth 0.1 and the height computed from its sample.
\<close>

theorem running_frame_updates_all_bars:
  assumes "scene_ready a" and "running a t"
  shows "length (py_slice (audio_data a) (start_sample a t) (start_sample a t + 64)) = 64 \<and>
         (\<forall>i<64. nat (start_sample a t) + i < length (audio_data a) \<and>
            py_slice (audio_data a) (start_sample a t) (start_sample a t + 64) ! i =
              audio_data a ! (nat (start_sample a t) + i)) \<and>
         snd (update_visualization a t) = Task_cont \<and>
         length (bars (fst (update_visualization a t))) = 64 \<and>
         (\<forall>i<64. scale (bars (fst (update_visualization a t)) ! i) =
            (fst (scale (bars a ! i)), b32 (b64 (1 / 10)),
             b32 (max (b64 (1 / 10))
                   (b64 (\<bar>audio_data a ! (nat (start_sample a t) + i)\<bar> * 10)))))"
proof -
  have n: "num_bars a = 64" and l: "length (bars a) = 64"
    using assms(1) by (simp_all add: scene_ready_def)
  let ?chunk = "py_slice (audio_data a) (start_sample a t) (start_sample a t + 64)"
  note chunk = running_chunk [OF assms(2) n]
  note u = update_running [OF assms]
  have c1: "length ?chunk = 64" by (rule chunk(1))
  have c2: "\<forall>i<64. nat (start_sample a t) + i < length (audio_data a) \<and>
      ?chunk ! i = audio_data a ! (nat (start_sample a t) + i)"
    using chunk(2,3) by simp
  have c3: "snd (update_visualization a t) = Task_cont"
    by (simp add: u)
  have c4: "length (bars (fst (update_visualization a t))) = 64"
    by (simp add: update_keeps l)
  have c5: "scale (bars (fst (update_visualization a t)) ! i) =
      (fst (scale (bars a ! i)), b32 (b64 (1 / 10)),
       b32 (max (b64 (1 / 10)) (fmul \<bar>audio_data a ! (nat (start_sample a t) + i)\<bar> 10)))"
    if i: "i < 64" for i
  proof -
    have x: "b32 (scale_x (bars a ! i)) = scale_x (bars a ! i)"
      by (rule scene_ready_nth(1) [OF assms(1) i])
    show ?thesis
      by (simp only: nth_bars_running [OF assms i] setScale_fields x) (simp add: scale_x_def)
  qed
  from c1 c2 c3 c4 c5 show ?thesis unfolding fmul_def by blast
qed

theorem running_frame_updates_all_bars_witness:
  "scene_ready ramp_app \<and> running ramp_app (3 / 4) \<and>
   length (py_slice (audio_data ramp_app) 33075 33139) = 64 \<and>
   py_slice (audio_data ramp_app) 33075 33139 ! 63 = audio_data ramp_app ! 33138 \<and>
   snd (update_visualization ramp_app (3 / 4)) = Task_cont \<and>
   scale (bars (fst (update_visualization ramp_app (3 / 4))) ! 63) =
     (b32 (b64 (4 / 10)), b32 (b64 (1 / 10)), 41885 / 8192)"
proof -
  note t = running_frame_updates_all_bars [OF scene_ready_ramp running_ramp(1)]
  have i: "(63::nat) < 64" by simp
  have w: "fst (scale (bars ramp_app ! 63)) = b32 (b64 (4 / 10))"
    by (rule ramp_bar_width) simp
  have s: "scale (bars (fst (update_visualization ramp_app (3 / 4))) ! 63) =
      (b32 (b64 (4 / 10)), b32 (b64 (1 / 10)), 41885 / 8192)"
    using t [THEN conjunct2, THEN conjunct2, THEN conjunct2, THEN conjunct2, rule_format, OF i]
    by (simp only: ramp_samples ramp_heights w)
  have c: "py_slice (audio_data ramp_app) 33075 33139 ! 63 = audio_data ramp_app ! 33138"
    using t [THEN conjunct2, THEN conjunct1, rule_format, OF i] by (simp add: ramp_start)
  from t have "length (py_slice (audio_data ramp_app) 33075 33139) = 64"
    and "snd (update_visualization ramp_app (3 / 4)) = Task_cont"
    by (simp_all add: ramp_start)
  with scene_ready_ramp running_ramp(1) s c show ?thesis by simp
qed

text \<open>
  C6. A frame update keeps the number of bars and, for every bar, its position, its
  color and the width and depth components of its scale; only the height component can
  change.
\<close>

theorem update_mutates_height_only:
  assumes "scene_ready a" and "i < 64"
  shows "length (bars (fst (update_visualization a t))) = length (bars a) \<and>
         pos (bars (fst (update_visualization a t)) ! i) = pos (bars a ! i) \<and>
         color (bars (fst (update_visualization a t)) ! i) = color (bars a ! i) \<and>
         scale_x (bars (fst (update_visualization a t)) ! i) = scale_x (bars a ! i) \<and>
         scale_y (bars (fst (update_visualization a t)) ! i) = scale_y (bars a ! i)"
proof -
  have l: "length (bars a) = 64"
    using assms(1) by (simp add: scene_ready_def)
  note xi = scene_ready_nth(1) [OF assms] and yi = scene_ready_nth(2) [OF assms]
  show ?thesis
  proof (cases "start_sample a t + int (num_bars a) < int (length (audio_data a))")
    case True
    from update_cont [OF True] l assms(2) xi yi show ?thesis
      by (simp add: length_update_bars nth_update_bars setScale_fields)
  next
    case False
    then have "update_visualization a t = (a, Task_done)"
      by (simp add: update_done)
    then show ?thesis by simp
  qed
qed

theorem update_mutates_height_only_witness:
  "scene_ready ramp_app \<and> (0::nat) < 64 \<and>
   pos (bars (fst (update_visualization ramp_app (3 / 4))) ! 0) = pos (bars ramp_app ! 0) \<and>
   color (bars (fst (update_visualization ramp_app (3 / 4))) ! 0) = color (bars ramp_app ! 0) \<and>
   scale_x (bars (fst (update_visualization ramp_app (3 / 4))) ! 0) = b32 (b64 (4 / 10)) \<and>
   scale_y (bars (fst (update_visualization ramp_app (3 / 4))) ! 0) = b32 (b64 (1 / 10)) \<and>
   scale_z (bars (fst (update_visualization ramp_app (3 / 4))) ! 0) \<noteq> scale_z (bars ramp_app ! 0)"
proof -
  have h: "(0::nat) < 64" by simp
  have sc: "scale (bars ramp_app ! 0) = (b32 (b64 (4 / 10)), b32 (b64 (1 / 10)), b32 (b64 (1 / 10)))"
    by (simp add: ramp_app_fields scale_new_bar)
  have x: "scale_x (bars ramp_app ! 0) = b32 (b64 (4 / 10))"
    and y: "scale_y (bars ramp_app ! 0) = b32 (b64 (1 / 10))"
    and z0: "scale_z (bars ramp_app ! 0) = b32 (b64 (1 / 10))"
    by (simp_all only: scale_x_def scale_y_def scale_z_def sc fst_conv snd_conv)
  have "scale_z (bars (fst (update_visualization ramp_app (3 / 4))) ! 0) = 83455 / 16384"
    by (simp only: nth_bars_running [OF scene_ready_ramp running_ramp(1) h] setScale_fields
        ramp_samples fmul_def ramp_heights)
  moreover have "(83455 / 16384 :: real) \<noteq> b32 (b64 (1 / 10))" by code_simp
  ultimately have z: "scale_z (bars (fst (update_visualization ramp_app (3 / 4))) ! 0) \<noteq>
      scale_z (bars ramp_app ! 0)"
    unfolding z0 by simp
  note t = update_mutates_height_only [OF scene_ready_ramp h, of "3 / 4"]
  from t have "pos (bars (fst (update_visualization ramp_app (3 / 4))) ! 0) = pos (bars ramp_app ! 0)"
    and "color (bars (fst (update_visualization ramp_app (3 / 4))) ! 0) = color (bars ramp_app ! 0)"
    and "scale_x (bars (fst (update_visualization ramp_app (3 / 4))) ! 0) = b32 (b64 (4 / 10))"
    and "scale_y (bars (fst (update_visualization ramp_app (3 / 4))) ! 0) = b32 (b64 (1 / 10))"
    by (simp_all only: x y)
  with scene_ready_ramp h z show ?thesis by (intro conjI)
qed

text \<open>
  C5. The outcome of a frame update is determined by the elapsed time and the sample
  buffer: two application states with the same buffer and sample rate, whatever the
  scales of their bars, give the same signal at the same time and, when the frame runs,
  the same height for every bar; and updating twice at the same time is the same as
  updating once.
\<close>

theorem update_pure_in_time_and_buffer:
  assumes "audio_data a = audio_data b" and "sample_rate a = sample_rate b"
    and "scene_ready a" and "scene_ready b" and "0 \<le> t" and "0 \<le> sample_rate a"
  shows "snd (update_visualization a t) = snd (update_visualization b t) \<and>
         (snd (update_visualization a t) = Task_cont \<longrightarrow>
            map scale_z (bars (fst (update_visualization a t))) =
            map scale_z (bars (fst (update_visualization b t)))) \<and>
         update_visualization (fst (update_visualization a t)) t = update_visualization a t"
proof -
  have n: "num_bars a = 64" "num_bars b = 64" "length (bars a) = 64" "length (bars b) = 64"
    using assms(3,4) by (simp_all add: scene_ready_def)
  have s: "start_sample b t = start_sample a t"
    using assms(2) by (simp add: start_sample_def)
  have st: "snd (update_visualization a t) = snd (update_visualization b t)"
    using assms(1) n s by (simp add: update_status)
  have hs: "map scale_z (bars (fst (update_visualization a t))) =
            map scale_z (bars (fst (update_visualization b t)))"
    if c: "snd (update_visualization a t) = Task_cont"
  proof -
    from c n have "start_sample a t + 64 < int (length (audio_data a))"
      by (simp add: update_status split: if_splits)
    with assms s have ra: "running a t" and rb: "running b t"
      by (simp_all add: running_def)
    show ?thesis
    proof (rule nth_equalityI)
      show "length (map scale_z (bars (fst (update_visualization a t)))) =
            length (map scale_z (bars (fst (update_visualization b t))))"
        using n by (simp add: update_keeps)
    next
      fix i
      assume "i < length (map scale_z (bars (fst (update_visualization a t))))"
      then have i: "i < 64" using n by (simp add: update_keeps)
      then show "map scale_z (bars (fst (update_visualization a t))) ! i =
                 map scale_z (bars (fst (update_visualization b t))) ! i"
        using n assms(1) s
        by (simp add: update_keeps nth_bars_running [OF assms(3) ra i]
            nth_bars_running [OF assms(4) rb i] setScale_fields)
    qed
  qed
  from st hs update_idem [OF assms(3)] show ?thesis by simp
qed

theorem update_pure_in_time_and_buffer_witness:
  "audio_data ramp_app = audio_data (fst (update_visualization ramp_app (1 / 4))) \<and>
   sample_rate ramp_app = sample_rate (fst (update_visualization ramp_app (1 / 4))) \<and>
   scene_ready ramp_app \<and> scene_ready (fst (update_visualization ramp_app (1 / 4))) \<and>
   (0::real) \<le> 3 / 4 \<and> 0 \<le> sample_rate ramp_app \<and>
   snd (update_visualization ramp_app (3 / 4)) = Task_cont \<and>
   map scale_z (bars (fst (update_visualization ramp_app (3 / 4)))) =
   map scale_z (bars (fst (update_visualization (fst (update_visualization ramp_app (1 / 4)))
     (3 / 4))))"
proof -
  let ?b = "fst (update_visualization ramp_app (1 / 4))"
  have h1: "audio_data ramp_app = audio_data ?b" and h2: "sample_rate ramp_app = sample_rate ?b"
    by (simp_all add: update_keeps)
  have h4: "scene_ready ?b"
    by (rule scene_ready_update [OF scene_ready_ramp])
  have h5: "(0::real) \<le> 3 / 4" by simp
  have h6: "0 \<le> sample_rate ramp_app" by (simp add: ramp_app_fields)
  have c: "snd (update_visualization ramp_app (3 / 4)) = Task_cont"
    by (simp add: update_running [OF scene_ready_ramp running_ramp(1)])
  from update_pure_in_time_and_buffer [OF h1 h2 scene_ready_ramp h4 h5 h6]
    h1 h2 scene_ready_ramp h4 h6 c
  show ?thesis by simp
qed

subsection \<open>Start-up and its failures\<close>

text \<open>
  C8. When the file exists and decoding it raises, \<open>main\<close> goes on: the buffer is 1024
  zero samples at 44100 Hz, the error is printed, the playback buffer is submitted
  (and a failure of that only printed), the camera is placed and the two lights are
  made and switched on, the 64 bars are created, the update task is added and the frame
  loop is started.
\<close>

theorem decode_failure_falls_back:
  assumes "path_exists w the_audio_file" and "sf_read w the_audio_file = Read_raised e"
  shows "main w =
    ([Open_window, Set_title ''Audio Visualizer'', Disable_mouse,
      Print (''Error loading audio file: '' @ e),
      Play_buffer (replicate 1024 0) 1 2 44100] @
     (case play_buffer w (replicate 1024 0) 1 2 44100 of
        None \<Rightarrow> []
      | Some m \<Rightarrow> [Print (''Error playing audio: '' @ m)]) @
     [Camera_set_pos 0 (- 48) 0, Camera_look_at 0 0 0,
      New_ambient_light ''ambient'',
      Light_color ''ambient'' (b64 (2 / 10), b64 (2 / 10), b64 (2 / 10), 1),
      Attach_node ''ambient'', Set_light ''ambient'',
      New_directional_light ''directional'',
      Light_color ''directional'' (b64 (8 / 10), b64 (8 / 10), b64 (8 / 10), 1),
      Attach_node ''directional'', Set_hpr ''directional'' 45 (- 45) 0,
      Set_light ''directional''] @
     replicate 64 (Load_model ''misc/rgbCube'') @ [Task_add ''UpdateVisualization'', Run],
     Some \<lparr>audio_file = the_audio_file, audio_data = replicate 1024 0, sample_rate = 44100,
       playback_data = replicate 1024 0, num_bars = 64, bars = map (new_bar 64) [0..<64]\<rparr>)"
  using assms
  by (simp add: main_def AudioVisualizer_init_def Let_def prepare_bars_eq to_playback_silence
      play_audio_def setup_scene_def)

theorem decode_failure_falls_back_witness:
  "path_exists broken_world the_audio_file \<and>
   sf_read broken_world the_audio_file = Read_raised ''bad header'' \<and>
   main broken_world =
    ([Open_window, Set_title ''Audio Visualizer'', Disable_mouse,
      Print ''Error loading audio file: bad header'',
      Play_buffer (replicate 1024 0) 1 2 44100,
      Camera_set_pos 0 (- 48) 0, Camera_look_at 0 0 0,
      New_ambient_light ''ambient'',
      Light_color ''ambient'' (b64 (2 / 10), b64 (2 / 10), b64 (2 / 10), 1),
      Attach_node ''ambient'', Set_light ''ambient'',
      New_directional_light ''directional'',
      Light_color ''directional'' (b64 (8 / 10), b64 (8 / 10), b64 (8 / 10), 1),
      Attach_node ''directional'', Set_hpr ''directional'' 45 (- 45) 0,
      Set_light ''directional''] @
     replicate 64 (Load_model ''misc/rgbCube'') @ [Task_add ''UpdateVisualization'', Run],
     Some \<lparr>audio_file = the_audio_file, audio_data = replicate 1024 0, sample_rate = 44100,
       playback_data = replicate 1024 0, num_bars = 64, bars = map (new_bar 64) [0..<64]\<rparr>)"
proof -
  have h1: "path_exists broken_world the_audio_file"
    by (simp add: broken_world_def ramp_world_def)
  have h2: "sf_read broken_world the_audio_file = Read_raised ''bad header''"
    by (simp add: broken_world_def)
  have p: "play_buffer broken_world (replicate 1024 0) 1 2 44100 = None"
    by (simp add: broken_world_def ramp_world_def)
  from decode_failure_falls_back [OF h1 h2] h1 h2 p show ?thesis by simp
qed

text \<open>
  C9. When the input file does not exist, \<open>main\<close> prints the file-not-found message
  and the hint, does nothing else and constructs no application object.
\<close>

theorem missing_file_returns_early:
  assumes "\<not> path_exists w the_audio_file"
  shows "main w =
    ([Print (''Error: File not found - '' @ the_audio_file),
      Print ''Please update the audio_file path in the script''], None) \<and>
    list_all is_print (fst (main w))"
  using assms by (simp add: main_def)

theorem missing_file_returns_early_witness:
  "\<not> path_exists empty_world the_audio_file \<and>
   main empty_world =
    ([Print ''Error: File not found - LTJ Bukem - Atlantis [-g3RUnx9svM].mp3'',
      Print ''Please update the audio_file path in the script''], None)"
proof -
  have h: "\<not> path_exists empty_world the_audio_file"
    by (simp add: empty_world_def)
  from missing_file_returns_early [OF h] h show ?thesis
    by (simp add: the_audio_file_def)
qed

end
